theory Spec2Isabelle
  imports Main "HOL-Library.Word"
begin

section \<open>Values\<close>

text \<open>
  The client handles decoded JSON documents (the job template, the server's replies, the
  history record) with Python's dynamically typed operations. A document is a tree:
  \<open>json.loads\<close> builds fresh objects, so no two positions share a container.
  An object keeps its members in insertion order, as a Python \<open>dict\<close> does, so it is
  an association list; a well-formed one has distinct keys. A character of a string
  stands for a code point below 256. Numbers with a fraction are left out.
\<close>

datatype json =
    JNull
  | JBool bool
  | JInt int
  | JStr string
  | JList "json list"
  | JObj "(string \<times> json) list"

type_synonym bytes = "8 word list"

text \<open>The exceptions that the client raises or lets through.\<close>

datatype error =
    ValueError
  | KeyError
  | TypeError
  | IndexError
  | AttributeError
  | JSONDecodeError
  | RequestError
  | HTTPStatusError int

section \<open>Python's operations on values\<close>

text \<open>Truth value of an object, as \<open>not x\<close> and \<open>if x\<close> test it.\<close>

fun py_truthy :: "json \<Rightarrow> bool" where
  "py_truthy JNull = False"
| "py_truthy (JBool b) = b"
| "py_truthy (JInt i) = (i \<noteq> 0)"
| "py_truthy (JStr s) = (s \<noteq> [])"
| "py_truthy (JList xs) = (xs \<noteq> [])"
| "py_truthy (JObj kvs) = (kvs \<noteq> [])"

fun is_substring :: "string \<Rightarrow> string \<Rightarrow> bool" where
  "is_substring k [] = (k = [])"
| "is_substring k (ch # s) = (take (length k) (ch # s) = k \<or> is_substring k s)"

text \<open>\<open>k in x\<close> for a string \<open>k\<close>: a key of a dict, an element of a list, a substring
  of a string; any other right operand is not iterable.\<close>

fun py_contains :: "string \<Rightarrow> json \<Rightarrow> error + bool" where
  "py_contains k (JObj kvs) = Inr (k \<in> set (map fst kvs))"
| "py_contains k (JList xs) = Inr (JStr k \<in> set xs)"
| "py_contains k (JStr s) = Inr (is_substring k s)"
| "py_contains k _ = Inl TypeError"

text \<open>An integer index into a sequence: an index below zero is taken from the end,
  and an index that falls outside either way raises \<open>IndexError\<close>.\<close>

definition py_index :: "'a list \<Rightarrow> int \<Rightarrow> error + 'a" where
  "py_index xs i =
     (if 0 \<le> i \<and> i < int (length xs) then Inr (xs ! nat i)
      else if i < 0 \<and> - int (length xs) \<le> i then Inr (xs ! nat (int (length xs) + i))
      else Inl IndexError)"

text \<open>\<open>x[key]\<close>. The keys of a JSON object are strings, so any other hashable key is
  absent from it; a list or dict used as a key is unhashable. A bool is an integer.\<close>

fun py_getitem :: "json \<Rightarrow> json \<Rightarrow> error + json" where
  "py_getitem (JObj kvs) (JStr k) =
     (case map_of kvs k of None \<Rightarrow> Inl KeyError | Some v \<Rightarrow> Inr v)"
| "py_getitem (JObj kvs) (JList _) = Inl TypeError"
| "py_getitem (JObj kvs) (JObj _) = Inl TypeError"
| "py_getitem (JObj kvs) _ = Inl KeyError"
| "py_getitem (JList xs) (JInt i) = py_index xs i"
| "py_getitem (JList xs) (JBool b) = py_index xs (if b then 1 else 0)"
| "py_getitem (JList xs) _ = Inl TypeError"
| "py_getitem (JStr s) (JInt i) = map_sum id (\<lambda>ch. JStr [ch]) (py_index s i)"
| "py_getitem (JStr s) (JBool b) =
     map_sum id (\<lambda>ch. JStr [ch]) (py_index s (if b then 1 else 0))"
| "py_getitem (JStr s) _ = Inl TypeError"
| "py_getitem _ _ = Inl TypeError"

text \<open>\<open>x.get(k, default)\<close>: only a dict has the method.\<close>

fun py_get :: "json \<Rightarrow> string \<Rightarrow> json \<Rightarrow> error + json" where
  "py_get (JObj kvs) k d = Inr (case map_of kvs k of None \<Rightarrow> d | Some v \<Rightarrow> v)"
| "py_get _ k d = Inl AttributeError"

text \<open>The elements that \<open>for x in v\<close> and \<open>xs += v\<close> draw from \<open>v\<close>: the keys of a
  dict, the elements of a list, the characters of a string.\<close>

fun py_iter :: "json \<Rightarrow> error + json list" where
  "py_iter (JObj kvs) = Inr (map (\<lambda>kv. JStr (fst kv)) kvs)"
| "py_iter (JList xs) = Inr xs"
| "py_iter (JStr s) = Inr (map (\<lambda>ch. JStr [ch]) s)"
| "py_iter _ = Inl TypeError"

text \<open>Storing under a key of a dict keeps the key's position, or appends a new key.\<close>

primrec dict_store :: "string \<Rightarrow> json \<Rightarrow> (string \<times> json) list \<Rightarrow> (string \<times> json) list" where
  "dict_store k v [] = [(k, v)]"
| "dict_store k v (p # ps) = (if fst p = k then (k, v) # ps else p # dict_store k v ps)"

text \<open>\<open>x[k] = v\<close> for a string \<open>k\<close>: only a dict accepts it.\<close>

fun py_setitem :: "json \<Rightarrow> string \<Rightarrow> json \<Rightarrow> error + json" where
  "py_setitem (JObj kvs) k v = Inr (JObj (dict_store k v kvs))"
| "py_setitem _ k v = Inl TypeError"

text \<open>Whitespace as \<open>str.strip()\<close> sees it, for code points below 256; and
  \<open>str.strip()\<close> itself.\<close>

definition py_isspace :: "char \<Rightarrow> bool" where
  "py_isspace ch =
     (let n = (of_char ch :: nat)
      in (9 \<le> n \<and> n \<le> 13) \<or> (28 \<le> n \<and> n \<le> 32) \<or> n = 133 \<or> n = 160)"

definition py_strip :: "string \<Rightarrow> string" where
  "py_strip s = rev (dropWhile py_isspace (rev (dropWhile py_isspace s)))"

section \<open>The world outside the client\<close>

text \<open>
  A request as \<open>httpx.post(url, json)\<close> and \<open>httpx.get(url, params)\<close> receive it, and
  the parts of the response that the client reads: the status code, the result of
  \<open>response.json()\<close> (\<open>None\<close> when the body does not decode) and the raw body.
\<close>

datatype request =
    Post string json
  | Get string "(string \<times> json) list"

record response =
  status_code :: int
  body_json :: "json option"
  content :: bytes

text \<open>What \<open>logging.warning\<close> records. Debug messages are not recorded.\<close>

datatype event =
    Warn_no_prompt_id int
  | Warn_no_images json
  | Warn_no_filename

text \<open>
  The world: the state of everything outside the process (the server, the source of
  randomness), the requests issued so far and the warnings logged so far, both oldest
  first. An exception does not undo effects, so every operation returns the world.
\<close>

record 'x world =
  outside :: 'x
  sent :: "request list"
  warnings :: "event list"

text \<open>
  The libraries the client calls: \<open>httpx\<close> answers a request with a response or raises,
  and \<open>uuid.uuid4\<close> draws an identifier; both may change the outside.
\<close>

record 'x env =
  send :: "'x \<Rightarrow> request \<Rightarrow> (error + response) \<times> 'x"
  uuid4 :: "'x \<Rightarrow> string \<times> 'x"

definition http :: "'x env \<Rightarrow> request \<Rightarrow> 'x world \<Rightarrow> (error + response) \<times> 'x world" where
  "http env req w =
     (case send env (outside w) req of
        (r, x) \<Rightarrow> (r, w\<lparr>outside := x, sent := sent w @ [req]\<rparr>))"

definition warn :: "event \<Rightarrow> 'x world \<Rightarrow> 'x world" where
  "warn ev w = w\<lparr>warnings := warnings w @ [ev]\<rparr>"

text \<open>\<open>response.raise_for_status()\<close>: any status outside 200..299 raises.\<close>

definition raise_for_status :: "response \<Rightarrow> error + unit" where
  "raise_for_status resp =
     (if 200 \<le> status_code resp \<and> status_code resp \<le> 299 then Inr ()
      else Inl (HTTPStatusError (status_code resp)))"

section \<open>The client\<close>

record client =
  workflow :: json
  endpoint :: string

subsection \<open>Downloading and extracting outputs\<close>

definition download_output ::
  "'x env \<Rightarrow> client \<Rightarrow> json \<Rightarrow> json \<Rightarrow> json \<Rightarrow> 'x world \<Rightarrow> (error + bytes) \<times> 'x world" where
  "download_output env c filename subfolder folder_type w =
     (case http env (Get (endpoint c @ ''view'')
                      [(''filename'', filename), (''subfolder'', subfolder),
                       (''type'', folder_type)]) w of
        (Inl e, w') \<Rightarrow> (Inl e, w')
      | (Inr resp, w') \<Rightarrow>
          (case raise_for_status resp of
             Inl e \<Rightarrow> (Inl e, w')
           | Inr _ \<Rightarrow> (Inr (content resp), w')))"

text \<open>The first loop of \<open>get_job_outputs\<close>: over the keys of \<open>history["outputs"]\<close>.\<close>

fun collect_images ::
  "json \<Rightarrow> json list \<Rightarrow> json list \<Rightarrow> 'x world \<Rightarrow> (error + json list) \<times> 'x world" where
  "collect_images outputs [] image_dicts w = (Inr image_dicts, w)"
| "collect_images outputs (key # keys) image_dicts w =
     (case py_getitem outputs key of
        Inl e \<Rightarrow> (Inl e, w)
      | Inr node \<Rightarrow>
          (case py_contains ''images'' node of
             Inl e \<Rightarrow> (Inl e, w)
           | Inr False \<Rightarrow> collect_images outputs keys image_dicts (warn (Warn_no_images key) w)
           | Inr True \<Rightarrow>
               (case py_getitem node (JStr ''images'') of
                  Inl e \<Rightarrow> (Inl e, w)
                | Inr images \<Rightarrow>
                    (case py_iter images of
                       Inl e \<Rightarrow> (Inl e, w)
                     | Inr items \<Rightarrow> collect_images outputs keys (image_dicts @ items) w))))"

text \<open>The body of the \<open>try\<close> in the second loop.\<close>

definition read_image_dict :: "json \<Rightarrow> error + (json \<times> json \<times> json)" where
  "read_image_dict image_dict =
     (case py_getitem image_dict (JStr ''filename'') of
        Inl e \<Rightarrow> Inl e
      | Inr filename \<Rightarrow>
          (case py_get image_dict ''subfolder'' (JStr []) of
             Inl e \<Rightarrow> Inl e
           | Inr subfolder \<Rightarrow>
               (case py_get image_dict ''type'' (JStr ''output'') of
                  Inl e \<Rightarrow> Inl e
                | Inr folder_type \<Rightarrow> Inr (filename, subfolder, folder_type))))"

text \<open>The second loop: over the collected image dicts; only \<open>KeyError\<close> is caught.\<close>

fun fetch_images ::
  "'x env \<Rightarrow> client \<Rightarrow> json list \<Rightarrow> (json \<times> json \<times> json \<times> bytes) list \<Rightarrow> 'x world
     \<Rightarrow> (error + (json \<times> json \<times> json \<times> bytes) list) \<times> 'x world" where
  "fetch_images env c [] output_data w = (Inr output_data, w)"
| "fetch_images env c (image_dict # rest) output_data w =
     (case read_image_dict image_dict of
        Inl e \<Rightarrow>
          (if e = KeyError then fetch_images env c rest output_data (warn Warn_no_filename w)
           else (Inl e, w))
      | Inr (filename, subfolder, folder_type) \<Rightarrow>
          (case download_output env c filename subfolder folder_type w of
             (Inl e, w') \<Rightarrow> (Inl e, w')
           | (Inr data, w') \<Rightarrow>
               fetch_images env c rest
                 (output_data @ [(folder_type, subfolder, filename, data)]) w'))"

definition get_job_outputs ::
  "'x env \<Rightarrow> client \<Rightarrow> json \<Rightarrow> 'x world
     \<Rightarrow> (error + (json \<times> json \<times> json \<times> bytes) list) \<times> 'x world" where
  "get_job_outputs env c history w =
     (case py_contains ''outputs'' history of
        Inl e \<Rightarrow> (Inl e, w)
      | Inr False \<Rightarrow> (Inl ValueError, w)
      | Inr True \<Rightarrow>
          (case py_getitem history (JStr ''outputs'') of
             Inl e \<Rightarrow> (Inl e, w)
           | Inr outputs \<Rightarrow>
               (case py_iter outputs of
                  Inl e \<Rightarrow> (Inl e, w)
                | Inr keys \<Rightarrow>
                    (case collect_images outputs keys [] w of
                       (Inl e, w') \<Rightarrow> (Inl e, w')
                     | (Inr image_dicts, w') \<Rightarrow> fetch_images env c image_dicts [] w'))))"

subsection \<open>Submitting and querying\<close>

definition submit_job :: "'x env \<Rightarrow> client \<Rightarrow> 'x world \<Rightarrow> (error + json) \<times> 'x world" where
  "submit_job env c w =
     (case uuid4 env (outside w) of
        (client_id, x) \<Rightarrow>
          (case http env (Post (endpoint c @ ''prompt'')
                           (JObj [(''prompt'', workflow c), (''client_id'', JStr client_id)]))
                     (w\<lparr>outside := x\<rparr>) of
             (Inl e, w') \<Rightarrow> (Inl e, w')
           | (Inr resp, w') \<Rightarrow>
               (case raise_for_status resp of
                  Inl e \<Rightarrow> (Inl e, w')
                | Inr _ \<Rightarrow>
                    (case body_json resp of
                       None \<Rightarrow> (Inl JSONDecodeError, w')
                     | Some response_data \<Rightarrow>
                         (case py_get response_data ''prompt_id'' (JStr []) of
                            Inl e \<Rightarrow> (Inl e, w')
                          | Inr prompt_id \<Rightarrow>
                              (Inr prompt_id,
                               if \<not> py_truthy prompt_id
                               then warn (Warn_no_prompt_id (status_code resp)) w'
                               else w'))))))"

text \<open>The debug message before the membership test calls \<open>history.keys()\<close>, which only
  a dict has.\<close>

definition query_job ::
  "'x env \<Rightarrow> client \<Rightarrow> string \<Rightarrow> 'x world \<Rightarrow> (error + json) \<times> 'x world" where
  "query_job env c prompt_id w =
     (case http env (Get (endpoint c @ ''history/'' @ prompt_id) []) w of
        (Inl e, w') \<Rightarrow> (Inl e, w')
      | (Inr resp, w') \<Rightarrow>
          (case raise_for_status resp of
             Inl e \<Rightarrow> (Inl e, w')
           | Inr _ \<Rightarrow>
               (case body_json resp of
                  None \<Rightarrow> (Inl JSONDecodeError, w')
                | Some history \<Rightarrow>
                    (case history of
                       JObj _ \<Rightarrow>
                         (case py_contains prompt_id history of
                            Inl e \<Rightarrow> (Inl e, w')
                          | Inr True \<Rightarrow> (py_getitem history (JStr prompt_id), w')
                          | Inr False \<Rightarrow> (Inl KeyError, w'))
                     | _ \<Rightarrow> (Inl AttributeError, w')))))"

subsection \<open>The fields of the job template\<close>

text \<open>
  Modelled from the spec: the module \<open>default_workflow\<close>, which holds the template text
  and the four node indices, is missing. The indices and the template are parameters. The
  spec has the template as a mapping from stringified node indices to node objects, each
  with an \<open>inputs\<close> mapping, so an index is a string.
\<close>

record layout =
  EMPTY_INDEX :: string
  KSAMPLER_INDEX :: string
  POSITIVE_PROMPT_INDEX :: string
  NEGATIVE_PROMPT_INDEX :: string

definition init :: "json \<Rightarrow> client" where
  "init default_workflow = \<lparr>workflow = default_workflow, endpoint = ''http://127.0.0.1:8188/''\<rparr>"

text \<open>\<open>self.workflow[idx]["inputs"][field]\<close>.\<close>

definition get_input :: "json \<Rightarrow> string \<Rightarrow> string \<Rightarrow> error + json" where
  "get_input template idx field =
     (case py_getitem template (JStr idx) of
        Inl e \<Rightarrow> Inl e
      | Inr node \<Rightarrow>
          (case py_getitem node (JStr ''inputs'') of
             Inl e \<Rightarrow> Inl e
           | Inr inputs \<Rightarrow> py_getitem inputs (JStr field)))"

text \<open>
  \<open>self.workflow[idx]["inputs"][field] = value\<close> changes the innermost dict in place.
  In a tree that is the template with the changed dict put back where it was read.
\<close>

fun put_member :: "json \<Rightarrow> string \<Rightarrow> json \<Rightarrow> json" where
  "put_member (JObj kvs) k v = JObj (dict_store k v kvs)"
| "put_member j k v = j"

definition set_input :: "json \<Rightarrow> string \<Rightarrow> string \<Rightarrow> json \<Rightarrow> error + json" where
  "set_input template idx field v =
     (case py_getitem template (JStr idx) of
        Inl e \<Rightarrow> Inl e
      | Inr node \<Rightarrow>
          (case py_getitem node (JStr ''inputs'') of
             Inl e \<Rightarrow> Inl e
           | Inr inputs \<Rightarrow>
               (case py_setitem inputs field v of
                  Inl e \<Rightarrow> Inl e
                | Inr inputs' \<Rightarrow>
                    Inr (put_member template idx (put_member node ''inputs'' inputs')))))"

text \<open>A setter returns the client as it is afterwards, also when it raises.\<close>

definition assign :: "client \<Rightarrow> string \<Rightarrow> string \<Rightarrow> json \<Rightarrow> (error + unit) \<times> client" where
  "assign c idx field v =
     (case set_input (workflow c) idx field v of
        Inl e \<Rightarrow> (Inl e, c)
      | Inr template \<Rightarrow> (Inr (), c\<lparr>workflow := template\<rparr>))"

definition width :: "layout \<Rightarrow> client \<Rightarrow> error + json" where
  "width L c = get_input (workflow c) (EMPTY_INDEX L) ''width''"

definition width_setter :: "layout \<Rightarrow> int \<Rightarrow> client \<Rightarrow> (error + unit) \<times> client" where
  "width_setter L v c =
     (if v > 0 then assign c (EMPTY_INDEX L) ''width'' (JInt v) else (Inl ValueError, c))"

definition height :: "layout \<Rightarrow> client \<Rightarrow> error + json" where
  "height L c = get_input (workflow c) (EMPTY_INDEX L) ''height''"

definition height_setter :: "layout \<Rightarrow> int \<Rightarrow> client \<Rightarrow> (error + unit) \<times> client" where
  "height_setter L v c =
     (if v > 0 then assign c (EMPTY_INDEX L) ''height'' (JInt v) else (Inl ValueError, c))"

definition seed :: "layout \<Rightarrow> client \<Rightarrow> error + json" where
  "seed L c = get_input (workflow c) (KSAMPLER_INDEX L) ''seed''"

definition seed_setter :: "layout \<Rightarrow> int \<Rightarrow> client \<Rightarrow> (error + unit) \<times> client" where
  "seed_setter L v c =
     (if v > 0 then assign c (KSAMPLER_INDEX L) ''seed'' (JInt v) else (Inl ValueError, c))"

definition positive :: "layout \<Rightarrow> client \<Rightarrow> error + json" where
  "positive L c = get_input (workflow c) (POSITIVE_PROMPT_INDEX L) ''text''"

definition positive_setter :: "layout \<Rightarrow> string \<Rightarrow> client \<Rightarrow> (error + unit) \<times> client" where
  "positive_setter L v c =
     (if py_strip v \<noteq> [] then assign c (POSITIVE_PROMPT_INDEX L) ''text'' (JStr v)
      else (Inl ValueError, c))"

definition negative :: "layout \<Rightarrow> client \<Rightarrow> error + json" where
  "negative L c = get_input (workflow c) (NEGATIVE_PROMPT_INDEX L) ''text''"

definition negative_setter :: "layout \<Rightarrow> string \<Rightarrow> client \<Rightarrow> (error + unit) \<times> client" where
  "negative_setter L v c = assign c (NEGATIVE_PROMPT_INDEX L) ''text'' (JStr v)"

section \<open>The shape of a history record\<close>

text \<open>
  The \<open>outputs\<close> section of a history record maps node indices to objects, each of which
  may hold an \<open>images\<close> list. The definitions below describe that shape and what it
  holds; the properties of \<open>get_job_outputs\<close> are stated for records of that shape.
\<close>

fun is_obj :: "json \<Rightarrow> bool" where
  "is_obj (JObj d) = True"
| "is_obj _ = False"

definition member_or :: "(string \<times> json) list \<Rightarrow> string \<Rightarrow> json \<Rightarrow> json" where
  "member_or d k dflt = (case map_of d k of None \<Rightarrow> dflt | Some v \<Rightarrow> v)"

text \<open>An output node is an object whose \<open>images\<close> member, when there is one, is a list.\<close>

fun node_ok :: "json \<Rightarrow> bool" where
  "node_ok (JObj n) =
     (case map_of n ''images'' of None \<Rightarrow> True | Some (JList imgs) \<Rightarrow> True | Some _ \<Rightarrow> False)"
| "node_ok _ = False"

fun has_images :: "json \<Rightarrow> bool" where
  "has_images (JObj n) = (map_of n ''images'' \<noteq> None)"
| "has_images _ = False"

fun node_images :: "json \<Rightarrow> json list" where
  "node_images (JObj n) = (case map_of n ''images'' of Some (JList imgs) \<Rightarrow> imgs | _ \<Rightarrow> [])"
| "node_images _ = []"

definition outputs_shape :: "(string \<times> json) list \<Rightarrow> bool" where
  "outputs_shape outs = (distinct (map fst outs) \<and> list_all (\<lambda>kv. node_ok (snd kv)) outs)"

text \<open>The image entries of all output nodes, node after node, each node's list in order.\<close>

definition image_refs :: "(string \<times> json) list \<Rightarrow> json list" where
  "image_refs outs = concat (map (\<lambda>kv. node_images (snd kv)) outs)"

text \<open>One warning for each node without \<open>images\<close>, in the order of the nodes.\<close>

definition missing_images_warnings :: "(string \<times> json) list \<Rightarrow> event list" where
  "missing_images_warnings outs =
     map (\<lambda>kv. Warn_no_images (JStr (fst kv))) (filter (\<lambda>kv. \<not> has_images (snd kv)) outs)"

text \<open>An image entry with all three members: filename, subfolder and type.\<close>

fun describes :: "json \<Rightarrow> json \<times> json \<times> json \<Rightarrow> bool" where
  "describes (JObj d) (f, s, t) =
     (map_of d ''filename'' = Some f \<and> map_of d ''subfolder'' = Some s \<and>
      map_of d ''type'' = Some t)"
| "describes _ _ = False"

text \<open>
  What an image entry refers to: its filename, its subfolder or else the empty string,
  its type or else \<open>"output"\<close>; nothing when it has no filename.
\<close>

fun image_ref :: "json \<Rightarrow> (json \<times> json \<times> json) option" where
  "image_ref (JObj d) =
     (case map_of d ''filename'' of
        None \<Rightarrow> None
      | Some f \<Rightarrow>
          Some (f, member_or d ''subfolder'' (JStr []), member_or d ''type'' (JStr ''output'')))"
| "image_ref _ = None"

fun has_filename :: "json \<Rightarrow> bool" where
  "has_filename (JObj d) = (map_of d ''filename'' \<noteq> None)"
| "has_filename _ = False"

text \<open>The request that downloads a reference.\<close>

definition view_request :: "client \<Rightarrow> json \<times> json \<times> json \<Rightarrow> request" where
  "view_request c ref =
     (case ref of (f, s, t) \<Rightarrow>
        Get (endpoint c @ ''view'') [(''filename'', f), (''subfolder'', s), (''type'', t)])"

text \<open>
  Extraction as the specification words it: each reference is resolved through
  \<open>download_output\<close>, in order, and gives one tuple (type, subfolder, filename, bytes);
  the first download that fails ends the run with its error.
\<close>

fun spec_resolve_refs ::
  "'x env \<Rightarrow> client \<Rightarrow> (json \<times> json \<times> json) list \<Rightarrow> 'x world
     \<Rightarrow> (error + (json \<times> json \<times> json \<times> bytes) list) \<times> 'x world" where
  "spec_resolve_refs env c [] w = (Inr [], w)"
| "spec_resolve_refs env c ((f, s, t) # refs) w =
     (case download_output env c f s t w of
        (Inl e, w') \<Rightarrow> (Inl e, w')
      | (Inr b, w') \<Rightarrow>
          (case spec_resolve_refs env c refs w' of
             (Inl e, w'') \<Rightarrow> (Inl e, w'')
           | (Inr res, w'') \<Rightarrow> (Inr ((t, s, f, b) # res), w'')))"

text \<open>The template has a node at \<open>idx\<close> whose \<open>inputs\<close> member is an object.\<close>

definition has_inputs :: "json \<Rightarrow> string \<Rightarrow> bool" where
  "has_inputs template idx =
     (case py_getitem template (JStr idx) of
        Inl e \<Rightarrow> False
      | Inr node \<Rightarrow>
          (case py_getitem node (JStr ''inputs'') of
             Inr (JObj inputs) \<Rightarrow> True
           | _ \<Rightarrow> False))"

section \<open>Examples\<close>

text \<open>
  A server that accepts every submission with the given reply, answers a history query
  with a record set holding the single identifier \<open>xyz\<close>, and serves the same four bytes
  for every file.
\<close>

definition example_png :: bytes where
  "example_png = [137, 80, 78, 71]"

definition example_send :: "json \<Rightarrow> nat \<Rightarrow> request \<Rightarrow> (error + response) \<times> nat" where
  "example_send reply x req =
     (case req of
        Post url body \<Rightarrow>
          (Inr \<lparr>status_code = 200, body_json = Some reply, content = []\<rparr>, Suc x)
      | Get url params \<Rightarrow>
          (if params = []
           then (Inr \<lparr>status_code = 200, body_json = Some (JObj [(''xyz'', JObj [])]),
                      content = []\<rparr>, x)
           else (Inr \<lparr>status_code = 200, body_json = None, content = example_png\<rparr>, x)))"

definition example_env :: "json \<Rightarrow> nat env" where
  "example_env reply = \<lparr>send = example_send reply, uuid4 = (\<lambda>x. (''c0ffee'', x))\<rparr>"

definition example_world :: "nat world" where
  "example_world = \<lparr>outside = 0, sent = [], warnings = []\<rparr>"

definition example_layout :: layout where
  "example_layout =
     \<lparr>EMPTY_INDEX = ''5'', KSAMPLER_INDEX = ''3'',
      POSITIVE_PROMPT_INDEX = ''6'', NEGATIVE_PROMPT_INDEX = ''7''\<rparr>"

definition example_workflow :: json where
  "example_workflow =
     JObj [(''3'', JObj [(''inputs'', JObj [(''seed'', JInt 5)])]),
           (''5'', JObj [(''inputs'', JObj [(''width'', JInt 512), (''height'', JInt 512)])]),
           (''6'', JObj [(''inputs'', JObj [(''text'', JStr ''a dog'')])]),
           (''7'', JObj [(''inputs'', JObj [(''text'', JStr ''blurry'')])])]"

definition example_client :: client where
  "example_client = init example_workflow"

text \<open>The \<open>outputs\<close> section of the class's own usage example: one node, one image.\<close>

definition example_outputs :: "(string \<times> json) list" where
  "example_outputs =
     [(''9'', JObj [(''images'',
         JList [JObj [(''filename'', JStr ''ComfyUI_00001_.png''), (''subfolder'', JStr []),
                      (''type'', JStr ''output'')]])])]"

text \<open>Two entries, the first without a filename, the second with nothing but one.\<close>

definition example_outputs_partial :: "(string \<times> json) list" where
  "example_outputs_partial =
     [(''9'', JObj [(''images'',
         JList [JObj [(''subfolder'', JStr ''tmp'')], JObj [(''filename'', JStr ''b.png'')]])])]"


section \<open>Lemmas on the two loops\<close>

lemma key_of_member: "map_of kvs k = Some v \<Longrightarrow> k \<in> fst ` set kvs"
  by (force dest: map_of_SomeD)

text \<open>The first loop, on an outputs section of the expected shape.\<close>

lemma collect_images_shape_aux:
  "\<forall>kv \<in> set kvs. map_of outs (fst kv) = Some (snd kv) \<and> node_ok (snd kv) \<Longrightarrow>
   collect_images (JObj outs) (map (\<lambda>kv. JStr (fst kv)) kvs) acc w =
     (Inr (acc @ image_refs kvs), w\<lparr>warnings := warnings w @ missing_images_warnings kvs\<rparr>)"
proof (induction kvs arbitrary: acc w)
  case Nil
  then show ?case by (simp add: image_refs_def missing_images_warnings_def)
next
  case (Cons kv kvs)
  obtain k node where kv: "kv = (k, node)" by (cases kv)
  from Cons.prems kv have look: "map_of outs k = Some node" and ok: "node_ok node" by auto
  from ok obtain n where node: "node = JObj n" by (cases node) auto
  have rest: "\<forall>kv \<in> set kvs. map_of outs (fst kv) = Some (snd kv) \<and> node_ok (snd kv)"
    using Cons.prems by simp
  show ?case
  proof (cases "map_of n ''images''")
    case None
    then have "''images'' \<notin> fst ` set n" by (simp add: map_of_eq_None_iff)
    with None show ?thesis
      using Cons.IH [OF rest] kv look node
      by (simp add: image_refs_def missing_images_warnings_def warn_def)
  next
    case (Some imgs)
    then have mem: "''images'' \<in> fst ` set n" by (rule key_of_member)
    from ok node Some obtain xs where imgs: "imgs = JList xs" by (cases imgs) auto
    show ?thesis
      using Cons.IH [OF rest] kv look node Some mem imgs
      by (simp add: image_refs_def missing_images_warnings_def)
  qed
qed

lemma collect_images_shape:
  assumes "outputs_shape outs"
  shows "collect_images (JObj outs) (map (\<lambda>kv. JStr (fst kv)) outs) [] w =
     (Inr (image_refs outs), w\<lparr>warnings := warnings w @ missing_images_warnings outs\<rparr>)"
proof -
  from assms have "\<forall>kv \<in> set outs. map_of outs (fst kv) = Some (snd kv) \<and> node_ok (snd kv)"
    by (auto simp: outputs_shape_def list_all_iff)
  from collect_images_shape_aux [OF this, of "[]" w] show ?thesis by simp
qed

lemma get_job_outputs_shape:
  assumes "map_of h ''outputs'' = Some (JObj outs)" and "outputs_shape outs"
  shows "get_job_outputs env c (JObj h) w =
     fetch_images env c (image_refs outs) []
       (w\<lparr>warnings := warnings w @ missing_images_warnings outs\<rparr>)"
proof -
  from assms(1) have "''outputs'' \<in> fst ` set h"
    by (rule key_of_member)
  then show ?thesis
    using assms(1) collect_images_shape [OF assms(2), of w]
    by (simp add: get_job_outputs_def)
qed

text \<open>Downloads log nothing, and do not depend on what was logged.\<close>

lemma download_output_warnings:
  "download_output env c f s t (w\<lparr>warnings := l\<rparr>) =
     apsnd (\<lambda>w'. w'\<lparr>warnings := l\<rparr>) (download_output env c f s t w)"
  by (simp add: download_output_def http_def split: prod.splits sum.splits)

lemma download_output_keeps_warnings:
  "warnings (snd (download_output env c f s t w)) = warnings w"
  by (simp add: download_output_def http_def split: prod.splits sum.splits)

lemma download_output_sent:
  "sent (snd (download_output env c f s t w)) = sent w @ [view_request c (f, s, t)]"
  by (simp add: download_output_def http_def view_request_def split: prod.splits sum.splits)

lemma spec_resolve_refs_warnings:
  "spec_resolve_refs env c refs (w\<lparr>warnings := l\<rparr>) =
     apsnd (\<lambda>w'. w'\<lparr>warnings := l\<rparr>) (spec_resolve_refs env c refs w)"
proof (induction refs arbitrary: w)
  case Nil
  show ?case by simp
next
  case (Cons r refs)
  obtain f s t where r: "r = (f, s, t)" by (cases r)
  show ?case
    unfolding r
    by (simp add: download_output_warnings Cons.IH split: prod.splits sum.splits)
qed

lemma spec_resolve_refs_fields:
  "spec_resolve_refs env c refs w = (Inr res, w') \<Longrightarrow> map (\<lambda>(t, s, f, b). (f, s, t)) res = refs"
proof (induction refs arbitrary: w res)
  case Nil
  then show ?case by simp
next
  case (Cons r refs)
  obtain f s t where r: "r = (f, s, t)" by (cases r)
  from Cons.prems show ?case
    unfolding r
    by (auto split: prod.splits sum.splits dest: Cons.IH)
qed

lemma spec_resolve_refs_sent:
  "spec_resolve_refs env c refs w = (Inr res, w') \<Longrightarrow> sent w' = sent w @ map (view_request c) refs"
proof (induction refs arbitrary: w res)
  case Nil
  then show ?case by simp
next
  case (Cons r refs)
  obtain f s t where r: "r = (f, s, t)" by (cases r)
  obtain a w1 where dl: "download_output env c f s t w = (a, w1)"
    by (cases "download_output env c f s t w")
  have w1: "sent w1 = sent w @ [view_request c (f, s, t)]"
    using download_output_sent [of env c f s t w] dl by simp
  from Cons.prems r dl obtain b where a: "a = Inr b" by (cases a) auto
  from Cons.prems r dl a obtain res1 where "spec_resolve_refs env c refs w1 = (Inr res1, w')"
    by (auto split: prod.splits sum.splits)
  from Cons.IH [OF this] w1 r show ?case by simp
qed

text \<open>The second loop against the resolution of the entries that have a filename.\<close>

lemma read_image_dict_ref:
  "image_ref d = Some (f, s, t) \<Longrightarrow> read_image_dict d = Inr (f, s, t)"
  by (cases d) (auto simp: read_image_dict_def member_or_def split: option.splits)

lemma read_image_dict_no_filename:
  "is_obj d \<Longrightarrow> image_ref d = None \<Longrightarrow> read_image_dict d = Inl KeyError"
  by (cases d) (auto simp: read_image_dict_def split: option.splits)

lemma has_filename_image_ref: "is_obj d \<Longrightarrow> has_filename d = (image_ref d \<noteq> None)"
  by (cases d) (auto split: option.splits)

lemma length_image_refs:
  "list_all is_obj ds \<Longrightarrow>
     length (List.map_filter image_ref ds) = length (filter has_filename ds)"
  by (induction ds) (auto simp: has_filename_image_ref split: option.splits)

lemma describes_image_ref: "describes d ref \<Longrightarrow> image_ref d = Some ref"
  by (cases d; cases ref) (auto simp: member_or_def)

lemma fetch_images_skip:
  "list_all is_obj ds \<Longrightarrow>
   fetch_images env c ds acc w = (r, w') \<Longrightarrow>
   spec_resolve_refs env c (List.map_filter image_ref ds) w = (r0, w0) \<Longrightarrow>
   r = map_sum id ((@) acc) r0 \<and> outside w' = outside w0 \<and> sent w' = sent w0 \<and>
   (\<forall>res. r = Inr res \<longrightarrow>
      warnings w' = warnings w @
        replicate (length (filter (\<lambda>d. \<not> has_filename d) ds)) Warn_no_filename)"
proof (induction ds arbitrary: acc w r w' r0 w0)
  case Nil
  then show ?case by auto
next
  case (Cons d ds)
  from Cons.prems(1) have obj: "is_obj d" and objs: "list_all is_obj ds" by simp_all
  show ?case
  proof (cases "image_ref d")
    case None
    have run: "fetch_images env c ds acc (warn Warn_no_filename w) = (r, w')"
      using Cons.prems(2) read_image_dict_no_filename [OF obj None] by simp
    have spec: "spec_resolve_refs env c (List.map_filter image_ref ds) (warn Warn_no_filename w) =
        (r0, w0\<lparr>warnings := warnings w @ [Warn_no_filename]\<rparr>)"
      using Cons.prems(3) None
      by (simp add: warn_def spec_resolve_refs_warnings)
    have nf: "\<not> has_filename d"
      using None obj by (simp add: has_filename_image_ref)
    from Cons.IH [OF objs run spec] nf show ?thesis
      by (simp add: warn_def replicate_app_Cons_same)
  next
    case (Some ref)
    obtain f s t where ref: "ref = (f, s, t)" by (cases ref)
    have hf: "has_filename d"
      using Some obj by (simp add: has_filename_image_ref)
    have rd: "read_image_dict d = Inr (f, s, t)"
      using Some ref by (simp add: read_image_dict_ref)
    have mf: "List.map_filter image_ref (d # ds) = (f, s, t) # List.map_filter image_ref ds"
      using Some ref by simp
    obtain a w1 where dl: "download_output env c f s t w = (a, w1)"
      by (cases "download_output env c f s t w")
    have w1: "warnings w1 = warnings w"
      using download_output_keeps_warnings [of env c f s t w] dl by simp
    show ?thesis
    proof (cases a)
      case (Inl e)
      with Cons.prems(2,3) rd mf dl show ?thesis by auto
    next
      case (Inr b)
      obtain r1 w2 where sp: "spec_resolve_refs env c (List.map_filter image_ref ds) w1 = (r1, w2)"
        by (cases "spec_resolve_refs env c (List.map_filter image_ref ds) w1")
      have run: "fetch_images env c ds (acc @ [(t, s, f, b)]) w1 = (r, w')"
        using Cons.prems(2) rd dl Inr by simp
      from Cons.IH [OF objs run sp] Cons.prems(3) mf dl Inr sp w1 hf show ?thesis
        by (cases r1) auto
    qed
  qed
qed

lemma fetch_images_refs:
  "list_all2 (\<lambda>d ref. image_ref d = Some ref) ds refs \<Longrightarrow>
   fetch_images env c ds acc w =
     (case spec_resolve_refs env c refs w of
        (Inl e, w') \<Rightarrow> (Inl e, w')
      | (Inr res, w') \<Rightarrow> (Inr (acc @ res), w'))"
proof (induction ds refs arbitrary: acc w rule: list_all2_induct)
  case Nil
  show ?case by simp
next
  case (Cons d ds ref refs)
  obtain f s t where ref: "ref = (f, s, t)" by (cases ref)
  have rd: "read_image_dict d = Inr (f, s, t)"
    using Cons.hyps(1) ref by (simp add: read_image_dict_ref)
  show ?case
    unfolding ref
    by (simp add: rd Cons.IH split: prod.splits sum.splits)
qed

section \<open>Extracting outputs\<close>

text \<open>
  C1. On a history record whose image entries all carry filename, subfolder and type,
  \<open>get_job_outputs\<close> does what resolving these references in order does: one tuple
  (type, subfolder, filename, bytes) per entry, in the order of the nodes and of their
  \<open>images\<close> lists, or the error of the first failing download. When it returns, the
  tuples name the references in that order. With exactly one entry \<open>(f, s, t)\<close> the
  result is the single tuple \<open>(t, s, f, b)\<close> where \<open>b\<close> is what
  \<open>download_output f s t\<close> returns.
\<close>

theorem get_job_outputs_image_refs:
  assumes "map_of h ''outputs'' = Some (JObj outs)"
    and "outputs_shape outs"
    and "list_all2 describes (image_refs outs) refs"
  shows "get_job_outputs env c (JObj h) w =
           spec_resolve_refs env c refs (w\<lparr>warnings := warnings w @ missing_images_warnings outs\<rparr>) \<and>
         (\<forall>res w'. get_job_outputs env c (JObj h) w = (Inr res, w') \<longrightarrow>
            map (\<lambda>(t, s, f, b). (f, s, t)) res = refs) \<and>
         (\<forall>f s t. refs = [(f, s, t)] \<longrightarrow>
            get_job_outputs env c (JObj h) w =
              (case download_output env c f s t
                      (w\<lparr>warnings := warnings w @ missing_images_warnings outs\<rparr>) of
                 (Inl e, w') \<Rightarrow> (Inl e, w')
               | (Inr b, w') \<Rightarrow> (Inr [(t, s, f, b)], w')))"
proof -
  let ?w = "w\<lparr>warnings := warnings w @ missing_images_warnings outs\<rparr>"
  from assms(3) have "list_all2 (\<lambda>d ref. image_ref d = Some ref) (image_refs outs) refs"
    by (rule list_all2_mono) (rule describes_image_ref)
  then have loop: "fetch_images env c (image_refs outs) [] ?w = spec_resolve_refs env c refs ?w"
    by (simp add: fetch_images_refs split: prod.splits sum.splits)
  have "get_job_outputs env c (JObj h) w = fetch_images env c (image_refs outs) [] ?w"
    by (rule get_job_outputs_shape [OF assms(1,2)])
  also note loop
  finally have eq: "get_job_outputs env c (JObj h) w = spec_resolve_refs env c refs ?w" .
  have one: "get_job_outputs env c (JObj h) w =
        (case download_output env c f s t ?w of
           (Inl e, w') \<Rightarrow> (Inl e, w')
         | (Inr b, w') \<Rightarrow> (Inr [(t, s, f, b)], w'))" if "refs = [(f, s, t)]" for f s t
    using eq that by (simp split: prod.splits sum.splits)
  from eq one show ?thesis
    by (auto dest: spec_resolve_refs_fields)
qed

theorem get_job_outputs_image_refs_witness:
  "outputs_shape example_outputs \<and>
   list_all2 describes (image_refs example_outputs)
     [(JStr ''ComfyUI_00001_.png'', JStr [], JStr ''output'')] \<and>
   get_job_outputs (example_env JNull) example_client
       (JObj [(''outputs'', JObj example_outputs)]) example_world =
     (Inr [(JStr ''output'', JStr [], JStr ''ComfyUI_00001_.png'', example_png)],
      example_world\<lparr>sent :=
        [Get ''http://127.0.0.1:8188/view''
           [(''filename'', JStr ''ComfyUI_00001_.png''), (''subfolder'', JStr []),
            (''type'', JStr ''output'')]]\<rparr>)"
proof -
  have shape: "outputs_shape example_outputs"
    by (simp add: outputs_shape_def example_outputs_def)
  have refs: "list_all2 describes (image_refs example_outputs)
      [(JStr ''ComfyUI_00001_.png'', JStr [], JStr ''output'')]"
    by (simp add: image_refs_def example_outputs_def)
  have look: "map_of [(''outputs'', JObj example_outputs)] ''outputs'' = Some (JObj example_outputs)"
    by simp
  have none: "missing_images_warnings example_outputs = []"
    by (simp add: missing_images_warnings_def example_outputs_def)
  from get_job_outputs_image_refs [OF look shape refs, of "example_env JNull" example_client
      example_world]
  have "get_job_outputs (example_env JNull) example_client
      (JObj [(''outputs'', JObj example_outputs)]) example_world =
    spec_resolve_refs (example_env JNull) example_client
      [(JStr ''ComfyUI_00001_.png'', JStr [], JStr ''output'')]
      (example_world\<lparr>warnings := warnings example_world @ []\<rparr>)"
    by (simp add: none)
  also have "\<dots> =
     (Inr [(JStr ''output'', JStr [], JStr ''ComfyUI_00001_.png'', example_png)],
      example_world\<lparr>sent :=
        [Get ''http://127.0.0.1:8188/view''
           [(''filename'', JStr ''ComfyUI_00001_.png''), (''subfolder'', JStr []),
            (''type'', JStr ''output'')]]\<rparr>)"
    by (simp add: download_output_def http_def raise_for_status_def example_env_def
          example_send_def example_world_def example_client_def init_def)
  finally show ?thesis using shape refs by simp
qed

text \<open>
  C6. A history record without an \<open>"outputs"\<close> key makes \<open>get_job_outputs\<close> raise
  \<open>ValueError\<close>, and the world is as before: no request was sent, nothing was logged.
\<close>

theorem get_job_outputs_no_outputs:
  "map_of h ''outputs'' = None \<Longrightarrow>
     get_job_outputs env c (JObj h) w = (Inl ValueError, w)"
  by (simp add: get_job_outputs_def map_of_eq_None_iff)

theorem get_job_outputs_no_outputs_witness:
  "map_of [(''status'', JObj [(''completed'', JBool True)])] ''outputs'' = None \<and>
   get_job_outputs (example_env JNull) example_client
       (JObj [(''status'', JObj [(''completed'', JBool True)])]) example_world =
     (Inl ValueError, example_world)"
  using get_job_outputs_no_outputs [of "[(''status'', JObj [(''completed'', JBool True)])]"
      "example_env JNull" example_client example_world]
  by simp

text \<open>
  C7. On a history record whose image entries are objects, an entry without a filename
  is passed over: the outcome of \<open>get_job_outputs\<close>, the requests it sends and the state
  it leaves outside are those of resolving the entries that have a filename. When it
  returns, there is one tuple for each of those entries, in order, and one warning was
  logged for each entry without a filename.
\<close>

theorem get_job_outputs_skips_missing_filename:
  assumes "map_of h ''outputs'' = Some (JObj outs)"
    and "outputs_shape outs"
    and "list_all is_obj (image_refs outs)"
  shows "fst (get_job_outputs env c (JObj h) w) =
           fst (spec_resolve_refs env c (List.map_filter image_ref (image_refs outs)) w) \<and>
         outside (snd (get_job_outputs env c (JObj h) w)) =
           outside (snd (spec_resolve_refs env c (List.map_filter image_ref (image_refs outs)) w)) \<and>
         sent (snd (get_job_outputs env c (JObj h) w)) =
           sent (snd (spec_resolve_refs env c (List.map_filter image_ref (image_refs outs)) w)) \<and>
         (\<forall>res. fst (get_job_outputs env c (JObj h) w) = Inr res \<longrightarrow>
            map (\<lambda>(t, s, f, b). (f, s, t)) res = List.map_filter image_ref (image_refs outs) \<and>
            length res = length (filter has_filename (image_refs outs)) \<and>
            warnings (snd (get_job_outputs env c (JObj h) w)) =
              warnings w @ missing_images_warnings outs @
                replicate (length (filter (\<lambda>d. \<not> has_filename d) (image_refs outs)))
                  Warn_no_filename)"
proof -
  let ?l = "warnings w @ missing_images_warnings outs"
  let ?refs = "List.map_filter image_ref (image_refs outs)"
  obtain r w' where out: "get_job_outputs env c (JObj h) w = (r, w')"
    by (cases "get_job_outputs env c (JObj h) w")
  obtain r0 w0 where res: "spec_resolve_refs env c ?refs w = (r0, w0)"
    by (cases "spec_resolve_refs env c ?refs w")
  have run: "fetch_images env c (image_refs outs) [] (w\<lparr>warnings := ?l\<rparr>) = (r, w')"
    using get_job_outputs_shape [OF assms(1,2), of env c w] out by simp
  have spec: "spec_resolve_refs env c ?refs (w\<lparr>warnings := ?l\<rparr>) = (r0, w0\<lparr>warnings := ?l\<rparr>)"
    using res by (simp add: spec_resolve_refs_warnings)
  from fetch_images_skip [OF assms(3) run spec]
  have main: "r = map_sum id ((@) []) r0" "outside w' = outside w0" "sent w' = sent w0"
    and warn: "\<And>res. r = Inr res \<Longrightarrow> warnings w' = ?l @
        replicate (length (filter (\<lambda>d. \<not> has_filename d) (image_refs outs))) Warn_no_filename"
    by simp_all
  from main(1) have r: "r = r0" by (cases r0) simp_all
  have fields: "map (\<lambda>(t, s, f, b). (f, s, t)) res = ?refs" if "r = Inr res" for res
    using spec_resolve_refs_fields [of env c ?refs w res w0] res r that by simp
  have len: "length ?refs = length (filter has_filename (image_refs outs))"
    using assms(3) by (rule length_image_refs)
  have "length res = length (filter has_filename (image_refs outs))" if "r = Inr res" for res
    using fields [OF that] len by (metis length_map)
  with r main(2,3) warn fields show ?thesis
    by (simp add: out res)
qed

theorem get_job_outputs_skips_missing_filename_witness:
  "outputs_shape example_outputs_partial \<and>
   list_all is_obj (image_refs example_outputs_partial) \<and>
   length (filter (\<lambda>d. \<not> has_filename d) (image_refs example_outputs_partial)) = 1 \<and>
   fst (get_job_outputs (example_env JNull) example_client
          (JObj [(''outputs'', JObj example_outputs_partial)]) example_world) =
     Inr [(JStr ''output'', JStr [], JStr ''b.png'', example_png)] \<and>
   warnings (snd (get_job_outputs (example_env JNull) example_client
          (JObj [(''outputs'', JObj example_outputs_partial)]) example_world)) =
     [Warn_no_filename]"
proof -
  have shape: "outputs_shape example_outputs_partial"
    by (simp add: outputs_shape_def example_outputs_partial_def)
  have refs: "image_refs example_outputs_partial =
      [JObj [(''subfolder'', JStr ''tmp'')], JObj [(''filename'', JStr ''b.png'')]]"
    by (simp add: image_refs_def example_outputs_partial_def)
  have objs: "list_all is_obj (image_refs example_outputs_partial)"
    by (simp add: refs)
  have look: "map_of [(''outputs'', JObj example_outputs_partial)] ''outputs'' =
      Some (JObj example_outputs_partial)"
    by simp
  have none: "missing_images_warnings example_outputs_partial = []"
    by (simp add: missing_images_warnings_def example_outputs_partial_def)
  have spec: "fst (spec_resolve_refs (example_env JNull) example_client
        (List.map_filter image_ref (image_refs example_outputs_partial)) example_world) =
      Inr [(JStr ''output'', JStr [], JStr ''b.png'', example_png)]"
    by (simp add: refs member_or_def download_output_def http_def raise_for_status_def
          example_env_def example_send_def)
  from get_job_outputs_skips_missing_filename [OF look shape objs, of "example_env JNull"
      example_client example_world] spec none objs shape
  show ?thesis
    by (simp add: refs example_world_def)
qed



text \<open>
  C10. On a history record whose image entries all have a filename, a missing subfolder
  or type does not make \<open>get_job_outputs\<close> fail: it does what resolving the references
  does, where a reference takes the empty string for a missing subfolder and
  \<open>"output"\<close> for a missing type. When it returns, the tuples carry these values and
  so do the download requests it has sent.
\<close>

theorem get_job_outputs_defaults:
  assumes "map_of h ''outputs'' = Some (JObj outs)"
    and "outputs_shape outs"
    and "list_all2 (\<lambda>d ref. image_ref d = Some ref) (image_refs outs) refs"
  shows "get_job_outputs env c (JObj h) w =
           spec_resolve_refs env c refs (w\<lparr>warnings := warnings w @ missing_images_warnings outs\<rparr>) \<and>
         (\<forall>res w'. get_job_outputs env c (JObj h) w = (Inr res, w') \<longrightarrow>
            map (\<lambda>(t, s, f, b). (f, s, t)) res = refs \<and>
            sent w' = sent w @ map (view_request c) refs)"
proof -
  let ?w = "w\<lparr>warnings := warnings w @ missing_images_warnings outs\<rparr>"
  from assms(3) have loop: "fetch_images env c (image_refs outs) [] ?w = spec_resolve_refs env c refs ?w"
    by (simp add: fetch_images_refs split: prod.splits sum.splits)
  have "get_job_outputs env c (JObj h) w = fetch_images env c (image_refs outs) [] ?w"
    by (rule get_job_outputs_shape [OF assms(1,2)])
  also note loop
  finally have eq: "get_job_outputs env c (JObj h) w = spec_resolve_refs env c refs ?w" .
  have "sent w' = sent w @ map (view_request c) refs"
    if "spec_resolve_refs env c refs ?w = (Inr res, w')" for res w'
    using spec_resolve_refs_sent [OF that] by simp
  with eq show ?thesis
    by (auto dest: spec_resolve_refs_fields)
qed

theorem get_job_outputs_defaults_witness:
  "outputs_shape [(''9'', JObj [(''images'', JList [JObj [(''filename'', JStr ''a.png'')]])])] \<and>
   image_ref (JObj [(''filename'', JStr ''a.png'')]) =
     Some (JStr ''a.png'', JStr [], JStr ''output'') \<and>
   get_job_outputs (example_env JNull) example_client
       (JObj [(''outputs'',
          JObj [(''9'', JObj [(''images'', JList [JObj [(''filename'', JStr ''a.png'')]])])])])
       example_world =
     (Inr [(JStr ''output'', JStr [], JStr ''a.png'', example_png)],
      example_world\<lparr>sent :=
          [Get ''http://127.0.0.1:8188/view''
             [(''filename'', JStr ''a.png''), (''subfolder'', JStr []),
              (''type'', JStr ''output'')]]\<rparr>)"
proof -
  let ?outs = "[(''9'', JObj [(''images'', JList [JObj [(''filename'', JStr ''a.png'')]])])]"
  have shape: "outputs_shape ?outs"
    by (simp add: outputs_shape_def)
  have ref: "image_ref (JObj [(''filename'', JStr ''a.png'')]) =
      Some (JStr ''a.png'', JStr [], JStr ''output'')"
    by (simp add: member_or_def)
  have refs: "list_all2 (\<lambda>d ref. image_ref d = Some ref) (image_refs ?outs)
      [(JStr ''a.png'', JStr [], JStr ''output'')]"
    by (simp add: image_refs_def member_or_def)
  have look: "map_of [(''outputs'', JObj ?outs)] ''outputs'' = Some (JObj ?outs)"
    by simp
  have none: "missing_images_warnings ?outs = []"
    by (simp add: missing_images_warnings_def)
  from get_job_outputs_defaults [OF look shape refs, of "example_env JNull" example_client
      example_world]
  have "get_job_outputs (example_env JNull) example_client (JObj [(''outputs'', JObj ?outs)])
      example_world =
    spec_resolve_refs (example_env JNull) example_client
      [(JStr ''a.png'', JStr [], JStr ''output'')]
      (example_world\<lparr>warnings := warnings example_world @ []\<rparr>)"
    by (simp add: none)
  also have "\<dots> =
     (Inr [(JStr ''output'', JStr [], JStr ''a.png'', example_png)],
      example_world\<lparr>sent :=
          [Get ''http://127.0.0.1:8188/view''
             [(''filename'', JStr ''a.png''), (''subfolder'', JStr []),
              (''type'', JStr ''output'')]]\<rparr>)"
    by (simp add: download_output_def http_def raise_for_status_def example_env_def
          example_send_def example_world_def example_client_def init_def)
  finally show ?thesis using shape ref by simp
qed

section \<open>Submitting and querying\<close>

text \<open>
  C2. When the server answers the submission with a status in 200..299 and a JSON
  object: if the object maps \<open>prompt_id\<close> to a non-empty string, \<open>submit_job\<close> returns
  that string and logs no warning; if \<open>prompt_id\<close> is missing or maps to the empty
  string, \<open>submit_job\<close> returns the empty string, without raising, and logs one warning.
\<close>

theorem submit_job_prompt_id:
  assumes "uuid4 env (outside w) = (cid, x)"
    and "send env x (Post (endpoint c @ ''prompt'')
                      (JObj [(''prompt'', workflow c), (''client_id'', JStr cid)])) = (Inr resp, x')"
    and "200 \<le> status_code resp" and "status_code resp \<le> 299"
    and "body_json resp = Some (JObj kvs)"
  shows "(\<forall>p. map_of kvs ''prompt_id'' = Some (JStr p) \<and> p \<noteq> [] \<longrightarrow>
            fst (submit_job env c w) = Inr (JStr p) \<and>
            warnings (snd (submit_job env c w)) = warnings w) \<and>
         (map_of kvs ''prompt_id'' = None \<or> map_of kvs ''prompt_id'' = Some (JStr []) \<longrightarrow>
            fst (submit_job env c w) = Inr (JStr []) \<and>
            warnings (snd (submit_job env c w)) =
              warnings w @ [Warn_no_prompt_id (status_code resp)])"
  using assms
  by (auto simp: submit_job_def http_def raise_for_status_def warn_def)

theorem submit_job_prompt_id_witness:
  "submit_job (example_env (JObj [(''prompt_id'', JStr ''abc123'')])) example_client
       example_world =
     (Inr (JStr ''abc123''),
      example_world\<lparr>outside := 1,
        sent := [Post ''http://127.0.0.1:8188/prompt''
                   (JObj [(''prompt'', example_workflow), (''client_id'', JStr ''c0ffee'')])]\<rparr>) \<and>
   fst (submit_job (example_env (JObj [(''prompt_id'', JStr [])])) example_client
          example_world) = Inr (JStr []) \<and>
   warnings (snd (submit_job (example_env (JObj [(''prompt_id'', JStr [])])) example_client
          example_world)) = [Warn_no_prompt_id 200] \<and>
   fst (submit_job (example_env (JObj [])) example_client example_world) = Inr (JStr []) \<and>
   warnings (snd (submit_job (example_env (JObj [])) example_client example_world)) =
     [Warn_no_prompt_id 200]"
proof -
  let ?resp = "\<lambda>reply. \<lparr>status_code = 200, body_json = Some reply, content = []\<rparr>"
  have run: "uuid4 (example_env reply) (outside example_world) = (''c0ffee'', 0)"
    "send (example_env reply) 0
       (Post (endpoint example_client @ ''prompt'')
          (JObj [(''prompt'', workflow example_client), (''client_id'', JStr ''c0ffee'')])) =
     (Inr (?resp reply), 1)" for reply
    by (simp_all add: example_env_def example_send_def example_world_def)
  have full: "submit_job (example_env (JObj [(''prompt_id'', JStr ''abc123'')])) example_client
       example_world =
     (Inr (JStr ''abc123''),
      example_world\<lparr>outside := 1,
        sent := [Post ''http://127.0.0.1:8188/prompt''
                   (JObj [(''prompt'', example_workflow), (''client_id'', JStr ''c0ffee'')])]\<rparr>)"
    by (simp add: submit_job_def http_def raise_for_status_def warn_def example_env_def
          example_send_def example_world_def example_client_def init_def)
  from submit_job_prompt_id [OF run, of "JObj [(''prompt_id'', JStr [])]"
      "[(''prompt_id'', JStr [])]"]
    submit_job_prompt_id [OF run, of "JObj []" "[]"]
    submit_job_prompt_id [OF run, of "JObj [(''prompt_id'', JStr ''abc123'')]"
      "[(''prompt_id'', JStr ''abc123'')]"]
    full
  show ?thesis
    by (simp add: example_world_def)
qed

text \<open>
  C3. When the server answers the history query for \<open>p\<close> with a status in 200..299 and
  a JSON object \<open>m\<close>: \<open>query_job p\<close> raises \<open>KeyError\<close> when \<open>p\<close> is not a key of
  \<open>m\<close>, and returns the member of \<open>m\<close> under \<open>p\<close> when it is.
\<close>

theorem query_job_lookup:
  assumes "send env (outside w) (Get (endpoint c @ ''history/'' @ p) []) = (Inr resp, x')"
    and "200 \<le> status_code resp" and "status_code resp \<le> 299"
    and "body_json resp = Some (JObj m)"
  shows "(map_of m p = None \<longrightarrow> fst (query_job env c p w) = Inl KeyError) \<and>
         (\<forall>v. map_of m p = Some v \<longrightarrow> fst (query_job env c p w) = Inr v)"
proof (intro conjI allI impI)
  assume "map_of m p = None"
  then have "p \<notin> fst ` set m" by (simp add: map_of_eq_None_iff)
  with assms show "fst (query_job env c p w) = Inl KeyError"
    by (simp add: query_job_def http_def raise_for_status_def)
next
  fix v
  assume v: "map_of m p = Some v"
  then have "p \<in> fst ` set m" by (rule key_of_member)
  with assms v show "fst (query_job env c p w) = Inr v"
    by (simp add: query_job_def http_def raise_for_status_def)
qed

theorem query_job_lookup_witness:
  "fst (query_job (example_env JNull) example_client ''abc123'' example_world) = Inl KeyError \<and>
   fst (query_job (example_env JNull) example_client ''xyz'' example_world) = Inr (JObj [])"
proof -
  have run: "send (example_env JNull) (outside example_world)
       (Get (endpoint example_client @ ''history/'' @ p) []) =
     (Inr \<lparr>status_code = 200, body_json = Some (JObj [(''xyz'', JObj [])]), content = []\<rparr>, 0)"
    for p
    by (simp add: example_env_def example_send_def example_world_def)
  from query_job_lookup [OF run, of "[(''xyz'', JObj [])]" "''abc123''"]
    query_job_lookup [OF run, of "[(''xyz'', JObj [])]" "''xyz''"]
  show ?thesis by simp
qed

section \<open>The fields of the job template\<close>

lemma map_of_dict_store: "map_of (dict_store k v kvs) = (map_of kvs)(k \<mapsto> v)"
  by (induction kvs) auto

lemma has_inputsD:
  assumes "has_inputs template idx"
  obtains kvs nkvs ins where "template = JObj kvs" and "map_of kvs idx = Some (JObj nkvs)"
    and "map_of nkvs ''inputs'' = Some (JObj ins)"
proof -
  from assms obtain kvs where t: "template = JObj kvs"
    by (cases template) (auto simp: has_inputs_def)
  with assms obtain node where n: "map_of kvs idx = Some node"
    by (cases "map_of kvs idx") (auto simp: has_inputs_def)
  with assms t obtain nkvs where nk: "node = JObj nkvs"
    by (cases node) (auto simp: has_inputs_def)
  with assms t n obtain inputs where i: "map_of nkvs ''inputs'' = Some inputs"
    by (cases "map_of nkvs ''inputs''") (auto simp: has_inputs_def)
  with assms t n nk obtain ins where "inputs = JObj ins"
    by (cases inputs) (auto simp: has_inputs_def)
  with t n nk i that show ?thesis by simp
qed

lemma assign_then_read:
  assumes "has_inputs (workflow c) idx"
  shows "fst (assign c idx field v) = Inr () \<and>
         get_input (workflow (snd (assign c idx field v))) idx field = Inr v"
proof -
  from assms obtain kvs nkvs ins where "workflow c = JObj kvs"
    and "map_of kvs idx = Some (JObj nkvs)" and "map_of nkvs ''inputs'' = Some (JObj ins)"
    by (rule has_inputsD)
  then show ?thesis
    by (simp add: assign_def set_input_def get_input_def map_of_dict_store)
qed

lemma py_strip_empty: "py_strip s = [] \<longleftrightarrow> (\<forall>ch \<in> set s. py_isspace ch)"
proof
  assume "py_strip s = []"
  then have "\<forall>ch \<in> set (dropWhile py_isspace s). py_isspace ch"
    by (simp add: py_strip_def dropWhile_eq_Nil_conv)
  then have "dropWhile py_isspace s = []"
    using hd_dropWhile [of py_isspace s] hd_in_set [of "dropWhile py_isspace s"] by blast
  then show "\<forall>ch \<in> set s. py_isspace ch"
    by (simp add: dropWhile_eq_Nil_conv)
next
  assume "\<forall>ch \<in> set s. py_isspace ch"
  then show "py_strip s = []"
    by (auto simp: py_strip_def dest: set_dropWhileD)
qed

text \<open>
  C4. On a template that has the node and its inputs, setting width, height or seed to
  a positive integer succeeds, and reading the field then gives that integer. For an
  integer that is not positive each of the three setters raises \<open>ValueError\<close> and the
  client is as before.
\<close>

theorem numeric_setters:
  "(0 < v \<and> has_inputs (workflow c) (EMPTY_INDEX L) \<longrightarrow>
      fst (width_setter L v c) = Inr () \<and>
      width L (snd (width_setter L v c)) = Inr (JInt v) \<and>
      fst (height_setter L v c) = Inr () \<and>
      height L (snd (height_setter L v c)) = Inr (JInt v)) \<and>
   (0 < v \<and> has_inputs (workflow c) (KSAMPLER_INDEX L) \<longrightarrow>
      fst (seed_setter L v c) = Inr () \<and>
      seed L (snd (seed_setter L v c)) = Inr (JInt v)) \<and>
   (v \<le> 0 \<longrightarrow>
      width_setter L v c = (Inl ValueError, c) \<and>
      height_setter L v c = (Inl ValueError, c) \<and>
      seed_setter L v c = (Inl ValueError, c))"
  using assign_then_read [of c "EMPTY_INDEX L" "''width''" "JInt v"]
    assign_then_read [of c "EMPTY_INDEX L" "''height''" "JInt v"]
    assign_then_read [of c "KSAMPLER_INDEX L" "''seed''" "JInt v"]
  by (simp add: width_setter_def height_setter_def seed_setter_def
        width_def height_def seed_def)

theorem numeric_setters_witness:
  "has_inputs (workflow example_client) (EMPTY_INDEX example_layout) \<and>
   has_inputs (workflow example_client) (KSAMPLER_INDEX example_layout) \<and>
   width example_layout (snd (width_setter example_layout 640 example_client)) = Inr (JInt 640) \<and>
   height example_layout (snd (height_setter example_layout 640 example_client)) = Inr (JInt 640) \<and>
   seed example_layout (snd (seed_setter example_layout 640 example_client)) = Inr (JInt 640) \<and>
   width_setter example_layout 0 example_client = (Inl ValueError, example_client) \<and>
   height_setter example_layout (- 3) example_client = (Inl ValueError, example_client) \<and>
   seed_setter example_layout 0 example_client = (Inl ValueError, example_client) \<and>
   width example_layout example_client = Inr (JInt 512)"
proof -
  have has: "has_inputs (workflow example_client) (EMPTY_INDEX example_layout)"
    "has_inputs (workflow example_client) (KSAMPLER_INDEX example_layout)"
    by (simp_all add: has_inputs_def example_client_def init_def example_workflow_def
          example_layout_def)
  have before: "width example_layout example_client = Inr (JInt 512)"
    by (simp add: width_def get_input_def example_client_def init_def example_workflow_def
          example_layout_def)
  from numeric_setters [of 640 example_client example_layout]
    numeric_setters [of 0 example_client example_layout]
    numeric_setters [of "- 3" example_client example_layout] has before
  show ?thesis by simp
qed

text \<open>
  C5. On a template that has the node and its inputs, setting the positive prompt to a
  string with at least one character that is not whitespace succeeds, and reading it
  then gives that string. For a string of whitespace only, the empty string included,
  the setter raises \<open>ValueError\<close> and the client is as before.
\<close>

theorem positive_setter_validates:
  "((\<exists>ch \<in> set s. \<not> py_isspace ch) \<and> has_inputs (workflow c) (POSITIVE_PROMPT_INDEX L) \<longrightarrow>
      fst (positive_setter L s c) = Inr () \<and>
      positive L (snd (positive_setter L s c)) = Inr (JStr s)) \<and>
   ((\<forall>ch \<in> set s. py_isspace ch) \<longrightarrow> positive_setter L s c = (Inl ValueError, c))"
  using assign_then_read [of c "POSITIVE_PROMPT_INDEX L" "''text''" "JStr s"]
  by (auto simp: positive_setter_def positive_def py_strip_empty)

theorem positive_setter_validates_witness:
  "has_inputs (workflow example_client) (POSITIVE_PROMPT_INDEX example_layout) \<and>
   \<not> py_isspace CHR ''A'' \<and>
   positive example_layout (snd (positive_setter example_layout ''A tiger.'' example_client)) =
     Inr (JStr ''A tiger.'') \<and>
   py_isspace CHR '' '' \<and>
   positive_setter example_layout ''  '' example_client = (Inl ValueError, example_client) \<and>
   positive_setter example_layout [] example_client = (Inl ValueError, example_client)"
proof -
  have has: "has_inputs (workflow example_client) (POSITIVE_PROMPT_INDEX example_layout)"
    by (simp add: has_inputs_def example_client_def init_def example_workflow_def
          example_layout_def)
  have letter: "\<not> py_isspace CHR ''A''" and blank: "py_isspace CHR '' ''"
    by (simp_all add: py_isspace_def)
  from letter have some: "\<exists>ch \<in> set ''A tiger.''. \<not> py_isspace ch" by simp
  from blank have all: "\<forall>ch \<in> set ''  ''. py_isspace ch" by simp
  from positive_setter_validates [of "''A tiger.''" example_client example_layout]
    positive_setter_validates [of "''  ''" example_client example_layout]
    positive_setter_validates [of "[]" example_client example_layout]
    has letter blank some all
  show ?thesis by simp
qed

text \<open>
  C8. On a template that has the node and its inputs, setting the negative prompt to any
  string, the empty string and strings of whitespace included, succeeds, and reading it
  then gives that string.
\<close>

theorem negative_setter_accepts:
  "has_inputs (workflow c) (NEGATIVE_PROMPT_INDEX L) \<Longrightarrow>
     fst (negative_setter L s c) = Inr () \<and>
     negative L (snd (negative_setter L s c)) = Inr (JStr s)"
  using assign_then_read [of c "NEGATIVE_PROMPT_INDEX L" "''text''" "JStr s"]
  by (simp add: negative_setter_def negative_def)

theorem negative_setter_accepts_witness:
  "has_inputs (workflow example_client) (NEGATIVE_PROMPT_INDEX example_layout) \<and>
   fst (negative_setter example_layout [] example_client) = Inr () \<and>
   negative example_layout (snd (negative_setter example_layout [] example_client)) =
     Inr (JStr []) \<and>
   negative example_layout (snd (negative_setter example_layout ''  '' example_client)) =
     Inr (JStr ''  '')"
proof -
  have has: "has_inputs (workflow example_client) (NEGATIVE_PROMPT_INDEX example_layout)"
    by (simp add: has_inputs_def example_client_def init_def example_workflow_def
          example_layout_def)
  from negative_setter_accepts [OF has, of "[]"] negative_setter_accepts [OF has, of "''  ''"] has
  show ?thesis by simp
qed

end
